theory Spec2Isabelle
  imports Main
begin

section \<open>Python values and exceptions\<close>

text \<open>
  The values the handlers of \<^verbatim>\<open>app.py\<close> touch are form fields and decoded JSON bodies.
  A JSON object is an association list; the first binding of a key is its value.
  A number is carried as an integer: the handlers only subscript, iterate and compare
  values with a \<^verbatim>\<open>str\<close>, and every number behaves alike under those three operations.
  A \<^verbatim>\<open>str\<close> is a \<open>string\<close>, one \<open>char\<close> per character; the class \<^verbatim>\<open>[a-zA-Z0-9]\<close>
  holds ASCII characters only, in Python as here.
\<close>

datatype pyval =
    PNone
  | PBool bool
  | PNum int
  | PStr string
  | PList "pyval list"
  | PDict "(string \<times> pyval) list"

datatype exn =
    TypeError
  | KeyError string
  | ValueError string
  | JSONDecodeError
  | RequestException

text \<open>\<^verbatim>\<open>v[key]\<close> with a \<^verbatim>\<open>str\<close> key: only a dict accepts it, and raises KeyError
  when the key is missing.\<close>

fun subscript :: "pyval \<Rightarrow> string \<Rightarrow> exn + pyval" where
  "subscript (PDict kvs) key =
     (case map_of kvs key of None \<Rightarrow> Inl (KeyError key) | Some v \<Rightarrow> Inr v)"
| "subscript _ key = Inl TypeError"

text \<open>\<^verbatim>\<open>for x in v\<close>: a list yields its elements, a dict its keys, a \<^verbatim>\<open>str\<close> its
  characters; nothing else is iterable.\<close>

fun py_iter :: "pyval \<Rightarrow> exn + pyval list" where
  "py_iter (PList xs) = Inr xs"
| "py_iter (PDict kvs) = Inr (map (\<lambda>kv. PStr (fst kv)) kvs)"
| "py_iter (PStr s) = Inr (map (\<lambda>c. PStr [c]) s)"
| "py_iter _ = Inl TypeError"

section \<open>Playlist identifier extraction\<close>

text \<open>
  Both patterns of \<^verbatim>\<open>extract_playlist_id\<close> are a literal text followed by the group
  \<^verbatim>\<open>([a-zA-Z0-9]+)\<close>. The escaped dots of the URL pattern are literal dots.
  The constants below hold the literal part; the group is part of \<open>match_here\<close>.
\<close>

definition url_pattern :: string where
  "url_pattern = ''https://open.spotify.com/playlist/''"

definition uri_pattern :: string where
  "uri_pattern = ''spotify:playlist:''"

text \<open>The character class \<^verbatim>\<open>[a-zA-Z0-9]\<close>.\<close>

definition alnum :: "char \<Rightarrow> bool" where
  "alnum c \<longleftrightarrow>
     (let n = (of_char c :: nat)
      in (97 \<le> n \<and> n \<le> 122) \<or> (65 \<le> n \<and> n \<le> 90) \<or> (48 \<le> n \<and> n \<le> 57))"

text \<open>Stripping a literal from the front of a text, when it is there.\<close>

fun strip_literal :: "string \<Rightarrow> string \<Rightarrow> string option" where
  "strip_literal [] s = Some s"
| "strip_literal (p # ps) [] = None"
| "strip_literal (p # ps) (c # cs) = (if p = c then strip_literal ps cs else None)"

text \<open>
  A match of \<^verbatim>\<open>literal([a-zA-Z0-9]+)\<close> that starts at the head of the text: the literal,
  then the greedy group, which takes the longest run of class characters and needs at
  least one. Nothing follows the group in the pattern, so the greedy choice is never
  given back. The result is \<^verbatim>\<open>group(1)\<close>.
\<close>

definition match_here :: "string \<Rightarrow> string \<Rightarrow> string option" where
  "match_here lit s =
     (case strip_literal lit s of
        None \<Rightarrow> None
      | Some rest \<Rightarrow>
          (let g = takeWhile alnum rest in if g = [] then None else Some g))"

text \<open>\<^verbatim>\<open>re.search\<close> tries every start position from the left and keeps the first
  match; the value is \<^verbatim>\<open>group(1)\<close> of that match, or \<open>None\<close> without one.\<close>

fun scan :: "string \<Rightarrow> string \<Rightarrow> string option" where
  "scan lit [] = match_here lit []"
| "scan lit (c # cs) =
     (case match_here lit (c # cs) of
        Some g \<Rightarrow> Some g
      | None \<Rightarrow> scan lit cs)"

text \<open>
  \<^verbatim>\<open>extract_playlist_id\<close> (lines 120-139). Python gives the parameter no type. The first
  \<^verbatim>\<open>re.search\<close> raises TypeError when the subject is not a \<^verbatim>\<open>str\<close>, before any
  return is reached; on a \<^verbatim>\<open>str\<close> neither search raises, and \<^verbatim>\<open>group(1)\<close> is only
  read from a match.
\<close>

fun extract_playlist_id :: "pyval \<Rightarrow> exn + string" where
  "extract_playlist_id (PStr playlist_input) =
     Inr (case scan url_pattern playlist_input of
            Some url_group \<Rightarrow> url_group
          | None \<Rightarrow>
              (case scan uri_pattern playlist_input of
                 Some uri_group \<Rightarrow> uri_group
               | None \<Rightarrow> playlist_input))"
| "extract_playlist_id _ = Inl TypeError"

subsection \<open>The extraction as a run\<close>

text \<open>
  The same function once more, as a relation between an argument and an outcome, so that
  returning at all and returning one outcome only are statements to prove. The search is
  the loop over start positions \<open>pos\<close>, from the given one up to the length of the
  subject: it stops at the first position where the pattern matches, and with no match
  once the position has passed the end.
\<close>

inductive re_search :: "string \<Rightarrow> string \<Rightarrow> nat \<Rightarrow> string option \<Rightarrow> bool" where
  past_end: "length s < pos \<Longrightarrow> re_search lit s pos None"
| found: "pos \<le> length s \<Longrightarrow> match_here lit (drop pos s) = Some g \<Longrightarrow>
          re_search lit s pos (Some g)"
| advance: "pos \<le> length s \<Longrightarrow> match_here lit (drop pos s) = None \<Longrightarrow>
            re_search lit s (Suc pos) r \<Longrightarrow> re_search lit s pos r"

code_pred re_search .

fun is_str :: "pyval \<Rightarrow> bool" where
  "is_str (PStr s) = True"
| "is_str _ = False"

text \<open>The three returns of lines 131, 136 and 139, and the TypeError of the first search
  on a subject that is not a \<^verbatim>\<open>str\<close>.\<close>

inductive extract_playlist_id_run :: "pyval \<Rightarrow> exn + string \<Rightarrow> bool" where
  url_match: "re_search url_pattern playlist_input 0 (Some url_group) \<Longrightarrow>
              extract_playlist_id_run (PStr playlist_input) (Inr url_group)"
| uri_match: "re_search url_pattern playlist_input 0 None \<Longrightarrow>
              re_search uri_pattern playlist_input 0 (Some uri_group) \<Longrightarrow>
              extract_playlist_id_run (PStr playlist_input) (Inr uri_group)"
| no_match: "re_search url_pattern playlist_input 0 None \<Longrightarrow>
             re_search uri_pattern playlist_input 0 None \<Longrightarrow>
             extract_playlist_id_run (PStr playlist_input) (Inr playlist_input)"
| not_str: "\<not> is_str v \<Longrightarrow> extract_playlist_id_run v (Inl TypeError)"

code_pred extract_playlist_id_run .

section \<open>Configuration read at import time\<close>

record config =
  CLIENT_ID :: string
  CLIENT_SECRET :: string

text \<open>
  Lines 8-12: \<^verbatim>\<open>os.getenv\<close> gives \<open>None\<close> for an unset variable, and \<^verbatim>\<open>not v\<close> holds
  for \<open>None\<close> and for the empty string. The module raises before the Flask application
  object of line 22 exists; the handlers below take the configuration as an argument,
  and only a successful \<open>module_init\<close> produces one.
\<close>

definition module_init :: "(string \<rightharpoonup> string) \<Rightarrow> exn + config" where
  "module_init environ =
     (case environ ''SPOTIFY_CLIENT_ID'' of
        None \<Rightarrow> Inl (ValueError ''Client ID or Client Secret not found in environment variables.'')
      | Some cid \<Rightarrow>
          (case environ ''SPOTIFY_CLIENT_SECRET'' of
             None \<Rightarrow> Inl (ValueError ''Client ID or Client Secret not found in environment variables.'')
           | Some secret \<Rightarrow>
               if cid = [] \<or> secret = []
               then Inl (ValueError ''Client ID or Client Secret not found in environment variables.'')
               else Inr \<lparr>CLIENT_ID = cid, CLIENT_SECRET = secret\<rparr>))"

definition REDIRECT_URI :: string where
  "REDIRECT_URI = ''https://kanye-cleaner.onrender.com/callback''"

definition TOKEN_URL :: string where
  "TOKEN_URL = ''https://accounts.spotify.com/api/token''"

definition API_BASE_URL :: string where
  "API_BASE_URL = ''https://api.spotify.com/v1''"

section \<open>The remote service and what a handler returns\<close>

text \<open>
  A response of the \<^verbatim>\<open>requests\<close> library: its status, its body as text, and the value of
  \<^verbatim>\<open>response.json()\<close>, which is \<open>None\<close> when the body is not JSON (the call then raises).
\<close>

record http_response =
  status_code :: int
  body_text :: string
  json_body :: "pyval option"

text \<open>The requests a handler sends, in the order it sends them.\<close>

datatype http_call =
    Post string "(string \<times> string) list"
  | Get string "(string \<times> string) list"
  | Delete string "(string \<times> string) list" pyval

text \<open>
  The remote service answers each request with a response, or the transport fails and
  the library raises.
\<close>

record remote =
  http_post :: "string \<Rightarrow> (string \<times> string) list \<Rightarrow> exn + http_response"
  http_get :: "string \<Rightarrow> (string \<times> string) list \<Rightarrow> exn + http_response"
  http_delete :: "string \<Rightarrow> (string \<times> string) list \<Rightarrow> pyval \<Rightarrow> exn + http_response"

text \<open>
  What a view function returns: a rendered template with its context, a redirect to
  \<^verbatim>\<open>url_for(endpoint, **values)\<close>, or Python's \<open>None\<close> when the body ends without a
  \<^verbatim>\<open>return\<close>.
\<close>

datatype view =
    Render string "(string \<times> string) list"
  | Redirect string "(string \<times> pyval) list"
  | ReturnNone

section \<open>The OAuth callback\<close>

text \<open>\<^verbatim>\<open>callback\<close> (lines 38-59). The result is the returned view or the raised
  exception, with the requests sent on the way.\<close>

text \<open>The form data of the token request (lines 45-51).\<close>

definition token_payload :: "config \<Rightarrow> string \<Rightarrow> (string \<times> string) list" where
  "token_payload cfg code =
     [(''grant_type'', ''authorization_code''),
      (''code'', code),
      (''redirect_uri'', REDIRECT_URI),
      (''client_id'', CLIENT_ID cfg),
      (''client_secret'', CLIENT_SECRET cfg)]"

definition callback ::
  "config \<Rightarrow> remote \<Rightarrow> (string \<rightharpoonup> string) \<Rightarrow> (exn + view) \<times> http_call list" where
  "callback cfg net args =
     (case args ''error'' of
        Some err \<Rightarrow> (Inr (Render ''callback.html'' [(''error'', err)]), [])
      | None \<Rightarrow>
          (case args ''code'' of
             None \<Rightarrow> (Inr ReturnNone, [])
           | Some code \<Rightarrow>
               (let payload = token_payload cfg code;
                    sent = [Post TOKEN_URL payload]
                in case http_post net TOKEN_URL payload of
                     Inl e \<Rightarrow> (Inl e, sent)
                   | Inr response \<Rightarrow>
                       if status_code response = 200 then
                         (case json_body response of
                            None \<Rightarrow> (Inl JSONDecodeError, sent)
                          | Some token_data \<Rightarrow>
                              (case subscript token_data ''access_token'' of
                                 Inl e \<Rightarrow> (Inl e, sent)
                               | Inr access_token \<Rightarrow>
                                   (case subscript token_data ''refresh_token'' of
                                      Inl e \<Rightarrow> (Inl e, sent)
                                    | Inr refresh_token \<Rightarrow>
                                        (Inr (Redirect ''select_playlist''
                                                [(''access_token'', access_token)]),
                                         sent))))
                       else
                         (Inr (Render ''callback.html''
                                 [(''error'',
                                   ''Failed to retrieve access token: '' @ body_text response)]),
                          sent))))"

section \<open>The playlist cleaner\<close>

definition kanye_id :: string where
  "kanye_id = ''5K4W6rqBFWDnAN6FQUkS6x''"

text \<open>
  The inner loop of lines 102-104 over the artists of one track item. The appended
  entry reads \<^verbatim>\<open>track["track"]["uri"]\<close> again at every hit.
\<close>

fun artist_loop :: "pyval \<Rightarrow> pyval list \<Rightarrow> pyval list \<Rightarrow> exn + pyval list" where
  "artist_loop track [] tracks_to_remove = Inr tracks_to_remove"
| "artist_loop track (artist # rest) tracks_to_remove =
     (case subscript artist ''id'' of
        Inl e \<Rightarrow> Inl e
      | Inr ident \<Rightarrow>
          if ident = PStr kanye_id then
            (case subscript track ''track'' of
               Inl e \<Rightarrow> Inl e
             | Inr t \<Rightarrow>
                 (case subscript t ''uri'' of
                    Inl e \<Rightarrow> Inl e
                  | Inr uri \<Rightarrow>
                      artist_loop track rest (tracks_to_remove @ [PDict [(''uri'', uri)]])))
          else artist_loop track rest tracks_to_remove)"

text \<open>The outer loop of lines 101-104 over the track items.\<close>

fun track_loop :: "pyval list \<Rightarrow> pyval list \<Rightarrow> exn + pyval list" where
  "track_loop [] tracks_to_remove = Inr tracks_to_remove"
| "track_loop (track # rest) tracks_to_remove =
     (case subscript track ''track'' of
        Inl e \<Rightarrow> Inl e
      | Inr t \<Rightarrow>
          (case subscript t ''artists'' of
             Inl e \<Rightarrow> Inl e
           | Inr artists \<Rightarrow>
               (case py_iter artists of
                  Inl e \<Rightarrow> Inl e
                | Inr artist_list \<Rightarrow>
                    (case artist_loop track artist_list tracks_to_remove of
                       Inl e \<Rightarrow> Inl e
                     | Inr marked \<Rightarrow> track_loop rest marked))))"

text \<open>Lines 97-104: the items of the decoded body, filtered by artist.\<close>

definition filter_tracks :: "http_response \<Rightarrow> exn + pyval list" where
  "filter_tracks response =
     (case json_body response of
        None \<Rightarrow> Inl JSONDecodeError
      | Some body \<Rightarrow>
          (case subscript body ''items'' of
             Inl e \<Rightarrow> Inl e
           | Inr tracks \<Rightarrow>
               (case py_iter tracks of
                  Inl e \<Rightarrow> Inl e
                | Inr track_list \<Rightarrow> track_loop track_list [])))"

text \<open>Lines 106-118: the conditional delete and the page that reports it.\<close>

definition remove_marked ::
  "remote \<Rightarrow> string \<Rightarrow> (string \<times> string) list \<Rightarrow> pyval list \<Rightarrow> (exn + view) \<times> http_call list"
  where
  "remove_marked net url headers tracks_to_remove =
     (if tracks_to_remove \<noteq> [] then
        (let payload = PDict [(''tracks'', PList tracks_to_remove)];
             sent = [Delete url headers payload]
         in case http_delete net url headers payload of
              Inl e \<Rightarrow> (Inl e, sent)
            | Inr remove_response \<Rightarrow>
                if status_code remove_response = 200 then
                  (Inr (Render ''remove_tracks.html''
                          [(''message'', ''Tracks removed successfully!'')]),
                   sent)
                else
                  (Inr (Render ''callback.html''
                          [(''error'', ''Failed to remove tracks: '' @ body_text remove_response)]),
                   sent))
      else
        (Inr (Render ''remove_tracks.html'' [(''message'', ''No tracks to remove.'')]), []))"

text \<open>The request headers of lines 87-89 and the URL of lines 91 and 109.\<close>

definition auth_headers :: "string \<Rightarrow> (string \<times> string) list" where
  "auth_headers access_token = [(''Authorization'', ''Bearer '' @ access_token)]"

definition tracks_url :: "string \<Rightarrow> string" where
  "tracks_url playlist_id = API_BASE_URL @ ''/playlists/'' @ playlist_id @ ''/tracks''"

text \<open>\<^verbatim>\<open>remove_artist_tracks\<close> (lines 71-118). A form field is a \<^verbatim>\<open>str\<close> or absent;
  \<^verbatim>\<open>not v\<close> holds for an absent field and for the empty string.\<close>

definition missing_input :: "(exn + view) \<times> http_call list" where
  "missing_input =
     (Inr (Render ''callback.html'' [(''error'', ''Access token or playlist input missing.'')]), [])"

definition remove_artist_tracks ::
  "remote \<Rightarrow> (string \<rightharpoonup> string) \<Rightarrow> (exn + view) \<times> http_call list" where
  "remove_artist_tracks net form =
     (case form ''access_token'' of
        None \<Rightarrow> missing_input
      | Some access_token \<Rightarrow>
     (case form ''playlist_input'' of
        None \<Rightarrow> missing_input
      | Some playlist_input \<Rightarrow>
          if access_token = [] \<or> playlist_input = [] then missing_input
          else
            (case extract_playlist_id (PStr playlist_input) of
               Inl e \<Rightarrow> (Inl e, [])
             | Inr playlist_id \<Rightarrow>
                 if playlist_id = [] then
                   (Inr (Render ''callback.html'' [(''error'', ''Invalid playlist URL or URI.'')]), [])
                 else
                   (let headers = auth_headers access_token;
                        url = tracks_url playlist_id;
                        sent = [Get url headers]
                    in case http_get net url headers of
                         Inl e \<Rightarrow> (Inl e, sent)
                       | Inr response \<Rightarrow>
                           if status_code response \<noteq> 200 then
                             (Inr (Render ''callback.html''
                                     [(''error'',
                                       ''Failed to retrieve playlist tracks: '' @ body_text response)]),
                              sent)
                           else
                             (case filter_tracks response of
                                Inl e \<Rightarrow> (Inl e, sent)
                              | Inr tracks_to_remove \<Rightarrow>
                                  (case remove_marked net url headers tracks_to_remove of
                                     (result, later) \<Rightarrow> (result, sent @ later)))))))"

section \<open>Notions used to state the properties\<close>

text \<open>
  A pattern matches somewhere in a text when the text holds the literal followed by at
  least one character of the class.
\<close>

definition has_match :: "string \<Rightarrow> string \<Rightarrow> bool" where
  "has_match lit s \<longleftrightarrow>
     (\<exists>pre g post. s = pre @ lit @ g @ post \<and> g \<noteq> [] \<and> list_all alnum g)"

text \<open>
  What \<^verbatim>\<open>re.search\<close> captures, stated without the scanning loop: the group of the
  leftmost occurrence, extended as far as the class goes.
\<close>

definition captures :: "string \<Rightarrow> string \<Rightarrow> string \<Rightarrow> bool" where
  "captures lit s g \<longleftrightarrow>
     (\<exists>pre post.
        s = pre @ lit @ g @ post \<and> g \<noteq> [] \<and> list_all alnum g \<and>
        (post = [] \<or> \<not> alnum (hd post)) \<and>
        (\<forall>pre' g' post'.
           s = pre' @ lit @ g' @ post' \<and> g' \<noteq> [] \<and> list_all alnum g'
           \<longrightarrow> length pre \<le> length pre'))"

text \<open>
  A track item as the data model describes it: a URI and the identifiers of the credited
  artists. \<open>as_track\<close> reads both from an element of \<^verbatim>\<open>items\<close>, when the element has a
  \<^verbatim>\<open>track\<close> object with a \<^verbatim>\<open>uri\<close> and a list \<^verbatim>\<open>artists\<close> of objects with an \<^verbatim>\<open>id\<close>.
\<close>

record track =
  uri :: pyval
  artist_ids :: "pyval list"

definition artist_id :: "pyval \<Rightarrow> pyval option" where
  "artist_id artist = (case subscript artist ''id'' of Inl e \<Rightarrow> None | Inr ident \<Rightarrow> Some ident)"

definition as_track :: "pyval \<Rightarrow> track option" where
  "as_track item =
     (case subscript item ''track'' of
        Inl e \<Rightarrow> None
      | Inr t \<Rightarrow>
          (case subscript t ''uri'' of
             Inl e \<Rightarrow> None
           | Inr u \<Rightarrow>
               (case subscript t ''artists'' of
                  Inr (PList artists) \<Rightarrow>
                    (case those (map artist_id artists) of
                       None \<Rightarrow> None
                     | Some ids \<Rightarrow> Some \<lparr>uri = u, artist_ids = ids\<rparr>)
                | _ \<Rightarrow> None)))"

text \<open>How often the target artist is credited on a track, and the payload entries that
  one entry per credit gives.\<close>

definition credits :: "track \<Rightarrow> nat" where
  "credits t = count_list (artist_ids t) (PStr kanye_id)"

definition uri_entry :: "track \<Rightarrow> pyval" where
  "uri_entry t = PDict [(''uri'', uri t)]"

definition entries_per_credit :: "track list \<Rightarrow> pyval list" where
  "entries_per_credit ts = concat (map (\<lambda>t. replicate (credits t) (uri_entry t)) ts)"

text \<open>A track is credited to the target artist when the artist is among its artists.\<close>

definition credited :: "track \<Rightarrow> bool" where
  "credited t \<longleftrightarrow> PStr kanye_id \<in> set (artist_ids t)"

fun is_delete :: "http_call \<Rightarrow> bool" where
  "is_delete (Delete url headers payload) = True"
| "is_delete _ = False"

subsection \<open>Sample data\<close>

definition sample_config :: config where
  "sample_config = \<lparr>CLIENT_ID = ''client'', CLIENT_SECRET = ''secret''\<rparr>"

text \<open>A remote service that answers every request of one kind with one fixed response.\<close>

definition fixed_remote :: "http_response \<Rightarrow> http_response \<Rightarrow> http_response \<Rightarrow> remote" where
  "fixed_remote token_reply tracks_reply delete_reply =
     \<lparr>http_post = (\<lambda>url payload. Inr token_reply),
      http_get = (\<lambda>url headers. Inr tracks_reply),
      http_delete = (\<lambda>url headers payload. Inr delete_reply)\<rparr>"

definition reply :: "int \<Rightarrow> string \<Rightarrow> pyval option \<Rightarrow> http_response" where
  "reply status body decoded = \<lparr>status_code = status, body_text = body, json_body = decoded\<rparr>"

text \<open>An element of \<^verbatim>\<open>items\<close> with the given URI and artist identifiers.\<close>

definition sample_item :: "string \<Rightarrow> string list \<Rightarrow> pyval" where
  "sample_item u ids =
     PDict [(''added_at'', PStr ''2020-01-01T00:00:00Z''),
            (''track'',
             PDict [(''artists'', PList (map (\<lambda>i. PDict [(''id'', PStr i), (''type'', PStr ''artist'')]) ids)),
                    (''uri'', PStr u)])]"

definition sample_form :: "string \<rightharpoonup> string" where
  "sample_form = [''access_token'' \<mapsto> ''token'', ''playlist_input'' \<mapsto> ''spotify:playlist:abc'']"

text \<open>A remote service whose playlist-tracks response is the given list of items with
  status 200, and whose delete succeeds.\<close>

definition playlist_body :: "pyval list \<Rightarrow> pyval" where
  "playlist_body items = PDict [(''items'', PList items), (''total'', PNum (int (length items)))]"

definition playlist_reply :: "pyval list \<Rightarrow> http_response" where
  "playlist_reply items = reply 200 [] (Some (playlist_body items))"

definition playlist_remote :: "pyval list \<Rightarrow> remote" where
  "playlist_remote items =
     fixed_remote (reply 200 [] None) (playlist_reply items) (reply 200 [] None)"

definition track_x :: track where
  "track_x = \<lparr>uri = PStr ''spotify:track:x'', artist_ids = [PStr kanye_id, PStr kanye_id]\<rparr>"

definition track_y :: track where
  "track_y = \<lparr>uri = PStr ''spotify:track:y'', artist_ids = [PStr ''other'']\<rparr>"

definition track_z :: track where
  "track_z = \<lparr>uri = PStr ''spotify:track:z'', artist_ids = [PStr ''other'', PStr kanye_id]\<rparr>"

definition item_x :: pyval where
  "item_x = sample_item ''spotify:track:x'' [kanye_id, kanye_id]"

definition item_y :: pyval where
  "item_y = sample_item ''spotify:track:y'' [''other'']"

definition item_z :: pyval where
  "item_z = sample_item ''spotify:track:z'' [''other'', kanye_id]"

text \<open>Query parameters of a callback request: with a code, and with neither a code nor
  an error.\<close>

definition code_args :: "string \<rightharpoonup> string" where
  "code_args = [''code'' \<mapsto> ''xyz'']"

definition state_args :: "string \<rightharpoonup> string" where
  "state_args = [''state'' \<mapsto> ''1'']"

text \<open>An environment that sets the client identifier and not the secret.\<close>

definition environ_without_secret :: "string \<rightharpoonup> string" where
  "environ_without_secret = [''SPOTIFY_CLIENT_ID'' \<mapsto> ''client'']"

section \<open>The scanning loop against the search semantics\<close>

lemma strip_literal_append: "strip_literal lit (lit @ rest) = Some rest"
  by (induction lit) auto

lemma strip_literal_iff: "strip_literal lit s = Some rest \<longleftrightarrow> s = lit @ rest"
  by (induction lit s rule: strip_literal.induct) auto

lemma match_here_iff:
  "match_here lit s = Some g \<longleftrightarrow>
     (\<exists>rest. s = lit @ rest \<and> g = takeWhile alnum rest \<and> g \<noteq> [])"
  by (auto simp: match_here_def Let_def strip_literal_iff strip_literal_append
           split: option.splits)

lemma takeWhile_run:
  "list_all alnum g \<Longrightarrow> post = [] \<or> \<not> alnum (hd post) \<Longrightarrow> takeWhile alnum (g @ post) = g"
  by (induction g) (auto simp: takeWhile_eq_Nil_iff)

lemma list_all_takeWhile: "list_all P (takeWhile P xs)"
  by (induction xs) auto

lemma run_stops: "dropWhile alnum rest = [] \<or> \<not> alnum (hd (dropWhile alnum rest))"
  using hd_dropWhile [of alnum rest] by blast

lemma match_here_exact:
  "g \<noteq> [] \<Longrightarrow> list_all alnum g \<Longrightarrow> post = [] \<or> \<not> alnum (hd post) \<Longrightarrow>
   match_here lit (lit @ g @ post) = Some g"
  by (simp add: match_here_def strip_literal_append takeWhile_run)

lemma match_here_occurrence:
  "g \<noteq> [] \<Longrightarrow> list_all alnum g \<Longrightarrow> \<exists>g'. match_here lit (lit @ g @ post) = Some g'"
  by (cases g) (auto simp: match_here_def strip_literal_append)

lemma match_here_split:
  assumes "match_here lit s = Some g"
  shows "\<exists>post. s = lit @ g @ post \<and> g \<noteq> [] \<and> list_all alnum g \<and>
                (post = [] \<or> \<not> alnum (hd post))"
proof -
  from assms obtain rest where r: "s = lit @ rest" "g = takeWhile alnum rest" "g \<noteq> []"
    by (auto simp: match_here_iff)
  have "s = lit @ g @ dropWhile alnum rest"
    using r by simp
  moreover have "list_all alnum g"
    using r(2) by (simp add: list_all_takeWhile)
  ultimately show ?thesis
    using r(3) run_stops by blast
qed

lemma scan_head: "match_here lit s = Some g \<Longrightarrow> scan lit s = Some g"
  by (cases s) simp_all

lemma scan_group: "scan lit s = Some g \<Longrightarrow> g \<noteq> [] \<and> list_all alnum g"
  by (induction s) (auto split: option.splits dest: match_here_split)

lemma has_match_Cons: "has_match lit s \<Longrightarrow> has_match lit (c # s)"
  unfolding has_match_def by (metis append_Cons)

lemma scan_Some_has_match: "scan lit s = Some g \<Longrightarrow> has_match lit s"
proof (induction s)
  case Nil
  then show ?case
    by (auto simp: match_here_iff)
next
  case (Cons c cs)
  show ?case
  proof (cases "match_here lit (c # cs)")
    case None
    with Cons show ?thesis
      by (simp add: has_match_Cons)
  next
    case (Some g')
    from match_here_split [OF this] obtain post
      where "c # cs = lit @ g' @ post" "g' \<noteq> []" "list_all alnum g'"
      by blast
    then have "c # cs = [] @ lit @ g' @ post \<and> g' \<noteq> [] \<and> list_all alnum g'"
      by simp
    then show ?thesis
      unfolding has_match_def by blast
  qed
qed

lemma has_match_scan:
  assumes "has_match lit s"
  shows "\<exists>g. scan lit s = Some g"
proof -
  from assms obtain pre g post
    where s: "s = pre @ lit @ g @ post" and g: "g \<noteq> []" "list_all alnum g"
    unfolding has_match_def by blast
  have "\<exists>g'. scan lit (pre @ lit @ g @ post) = Some g'"
  proof (induction pre)
    case Nil
    show ?case
      using match_here_occurrence [OF g] scan_head by fastforce
  next
    case (Cons c pre)
    then show ?case
      by (auto split: option.splits)
  qed
  then show ?thesis
    using s by simp
qed

lemma scan_None_iff: "scan lit s = None \<longleftrightarrow> \<not> has_match lit s"
  using has_match_scan scan_Some_has_match by (metis option.exhaust option.distinct(1))

lemma scan_None_missing_char: "c \<in> set lit \<Longrightarrow> c \<notin> set s \<Longrightarrow> scan lit s = None"
  by (auto simp: scan_None_iff has_match_def)

text \<open>The loop finds what the search semantics describes, and nothing else.\<close>

lemma captures_scan:
  assumes "captures lit s g"
  shows "scan lit s = Some g"
proof -
  from assms obtain pre post
    where s: "s = pre @ lit @ g @ post" and g: "g \<noteq> []" "list_all alnum g"
      and p: "post = [] \<or> \<not> alnum (hd post)"
      and left: "\<forall>pre' g' post'.
                   s = pre' @ lit @ g' @ post' \<and> g' \<noteq> [] \<and> list_all alnum g'
                   \<longrightarrow> length pre \<le> length pre'"
    unfolding captures_def by blast
  have "(\<forall>pre' g' post'.
           pre @ lit @ g @ post = pre' @ lit @ g' @ post' \<and> g' \<noteq> [] \<and> list_all alnum g'
           \<longrightarrow> length pre \<le> length pre')
        \<Longrightarrow> scan lit (pre @ lit @ g @ post) = Some g"
  proof (induction pre)
    case Nil
    show ?case
      using match_here_exact [OF g p] scan_head by simp
  next
    case (Cons c pre)
    have no: "match_here lit (c # pre @ lit @ g @ post) = None"
    proof (rule ccontr)
      assume "match_here lit (c # pre @ lit @ g @ post) \<noteq> None"
      then obtain g' where "match_here lit (c # pre @ lit @ g @ post) = Some g'"
        by blast
      from match_here_split [OF this] obtain post'
        where "c # pre @ lit @ g @ post = lit @ g' @ post'" "g' \<noteq> []" "list_all alnum g'"
        by blast
      then have "(c # pre) @ lit @ g @ post = [] @ lit @ g' @ post' \<and>
                 g' \<noteq> [] \<and> list_all alnum g'"
        by simp
      then have "length (c # pre) \<le> length ([]::string)"
        using Cons.prems by blast
      then show False
        by simp
    qed
    have "\<forall>pre' g' post'.
            pre @ lit @ g @ post = pre' @ lit @ g' @ post' \<and> g' \<noteq> [] \<and> list_all alnum g'
            \<longrightarrow> length pre \<le> length pre'"
    proof (intro allI impI)
      fix pre' g' post'
      assume a: "pre @ lit @ g @ post = pre' @ lit @ g' @ post' \<and> g' \<noteq> [] \<and> list_all alnum g'"
      then have "(c # pre) @ lit @ g @ post = (c # pre') @ lit @ g' @ post'"
        by simp
      with a Cons.prems have "length (c # pre) \<le> length (c # pre')"
        by blast
      then show "length pre \<le> length pre'"
        by simp
    qed
    then have "scan lit (pre @ lit @ g @ post) = Some g"
      using Cons.IH by blast
    then show ?case
      using no by simp
  qed
  then show ?thesis
    using s left by blast
qed

lemma scan_captures: "scan lit s = Some g \<Longrightarrow> captures lit s g"
proof (induction s)
  case Nil
  then show ?case
    by (auto simp: match_here_iff)
next
  case (Cons c cs)
  show ?case
  proof (cases "match_here lit (c # cs)")
    case (Some g')
    with Cons.prems have "g' = g"
      by simp
    with Some have "match_here lit (c # cs) = Some g"
      by simp
    from match_here_split [OF this] obtain post
      where "c # cs = lit @ g @ post" "g \<noteq> []" "list_all alnum g"
        "post = [] \<or> \<not> alnum (hd post)"
      by blast
    then have "c # cs = [] @ lit @ g @ post \<and> g \<noteq> [] \<and> list_all alnum g \<and>
               (post = [] \<or> \<not> alnum (hd post)) \<and>
               (\<forall>pre' g' post'.
                  c # cs = pre' @ lit @ g' @ post' \<and> g' \<noteq> [] \<and> list_all alnum g'
                  \<longrightarrow> length ([]::string) \<le> length pre')"
      by simp
    then show ?thesis
      unfolding captures_def by blast
  next
    case None
    with Cons.prems have "scan lit cs = Some g"
      by simp
    then have "captures lit cs g"
      by (rule Cons.IH)
    then obtain pre post
      where s: "cs = pre @ lit @ g @ post" and g: "g \<noteq> []" "list_all alnum g"
        and p: "post = [] \<or> \<not> alnum (hd post)"
        and left: "\<forall>pre' g' post'.
                     cs = pre' @ lit @ g' @ post' \<and> g' \<noteq> [] \<and> list_all alnum g'
                     \<longrightarrow> length pre \<le> length pre'"
      unfolding captures_def by blast
    have "length (c # pre) \<le> length pre'"
      if a: "c # cs = pre' @ lit @ g' @ post'" "g' \<noteq> []" "list_all alnum g'"
      for pre' g' post'
    proof (cases pre')
      case Nil
      then have "\<exists>h. match_here lit (c # cs) = Some h"
        using a match_here_occurrence [of g' lit post'] by simp
      with None show ?thesis
        by simp
    next
      case (Cons d pre'')
      with a have "cs = pre'' @ lit @ g' @ post'"
        by simp
      with a left have "length pre \<le> length pre''"
        by blast
      with Cons show ?thesis
        by simp
    qed
    moreover have "c # cs = (c # pre) @ lit @ g @ post"
      using s by simp
    ultimately show ?thesis
      unfolding captures_def using g p by blast
  qed
qed

lemma scan_Some_iff: "scan lit s = Some g \<longleftrightarrow> captures lit s g"
  using captures_scan scan_captures by blast

lemma not_alnum_slash: "\<not> alnum (CHR ''/'')"
  by (simp add: alnum_def)

lemma slash_not_in_run: "list_all alnum ident \<Longrightarrow> CHR ''/'' \<notin> set ident"
  using not_alnum_slash by (auto simp: list_all_iff)

lemma scan_url_in_uri_form:
  "list_all alnum ident \<Longrightarrow> scan url_pattern (uri_pattern @ ident) = None"
proof (rule scan_None_missing_char [of "CHR ''/''"])
  show "CHR ''/'' \<in> set url_pattern"
    by (simp add: url_pattern_def)
  show "CHR ''/'' \<notin> set (uri_pattern @ ident)" if "list_all alnum ident"
    using that slash_not_in_run by (simp add: uri_pattern_def)
qed

lemma scan_exact:
  "ident \<noteq> [] \<Longrightarrow> list_all alnum ident \<Longrightarrow> scan lit (lit @ ident) = Some ident"
  using match_here_exact [of ident "[]" lit] scan_head by simp

section \<open>Properties of the identifier extraction\<close>

text \<open>
  C2. An input in which the web-URL pattern matches yields the identifier that the
  pattern captures there, whatever surrounds the match; so does an input in which the
  URI pattern matches and the web-URL pattern does not. In particular an input that is
  the web-URL literal followed by an identifier, and an input that is the URI literal
  followed by an identifier, both yield exactly the identifier. The identifier is what
  the group can capture: one or more characters of \<^verbatim>\<open>[a-zA-Z0-9]\<close>. The provider domain
  and the URI scheme are the fixed ones of the patterns.
\<close>

theorem extract_playlist_id_of_form:
  "(captures url_pattern url_input url_group \<longrightarrow>
      extract_playlist_id (PStr url_input) = Inr url_group) \<and>
   (\<not> has_match url_pattern uri_input \<and> captures uri_pattern uri_input uri_group \<longrightarrow>
      extract_playlist_id (PStr uri_input) = Inr uri_group) \<and>
   (ident \<noteq> [] \<and> list_all alnum ident \<longrightarrow>
      extract_playlist_id (PStr (url_pattern @ ident)) = Inr ident \<and>
      extract_playlist_id (PStr (uri_pattern @ ident)) = Inr ident)"
proof (intro conjI impI)
  assume "captures url_pattern url_input url_group"
  then show "extract_playlist_id (PStr url_input) = Inr url_group"
    by (simp add: captures_scan)
next
  assume "\<not> has_match url_pattern uri_input \<and> captures uri_pattern uri_input uri_group"
  then show "extract_playlist_id (PStr uri_input) = Inr uri_group"
    by (auto simp: captures_scan scan_None_iff [symmetric])
next
  assume "ident \<noteq> [] \<and> list_all alnum ident"
  then show "extract_playlist_id (PStr (url_pattern @ ident)) = Inr ident"
    by (simp add: scan_exact)
next
  assume "ident \<noteq> [] \<and> list_all alnum ident"
  then show "extract_playlist_id (PStr (uri_pattern @ ident)) = Inr ident"
    by (simp add: scan_exact scan_url_in_uri_form)
qed

theorem extract_playlist_id_of_form_witness:
  "captures url_pattern ''https://open.spotify.com/playlist/PL123?si=9'' ''PL123'' \<and>
   extract_playlist_id (PStr ''https://open.spotify.com/playlist/PL123?si=9'') = Inr ''PL123'' \<and>
   \<not> has_match url_pattern ''see spotify:playlist:abc now'' \<and>
   captures uri_pattern ''see spotify:playlist:abc now'' ''abc'' \<and>
   extract_playlist_id (PStr ''see spotify:playlist:abc now'') = Inr ''abc'' \<and>
   ''37i9dQZF1DXcBWIGoYBM5M'' \<noteq> [] \<and> list_all alnum ''37i9dQZF1DXcBWIGoYBM5M'' \<and>
   extract_playlist_id (PStr (url_pattern @ ''37i9dQZF1DXcBWIGoYBM5M''))
     = Inr ''37i9dQZF1DXcBWIGoYBM5M'' \<and>
   extract_playlist_id (PStr (uri_pattern @ ''37i9dQZF1DXcBWIGoYBM5M''))
     = Inr ''37i9dQZF1DXcBWIGoYBM5M''"
proof -
  have a: "captures url_pattern ''https://open.spotify.com/playlist/PL123?si=9'' ''PL123''"
    unfolding scan_Some_iff [symmetric]
    by (simp add: url_pattern_def match_here_def alnum_def)
  have b: "\<not> has_match url_pattern ''see spotify:playlist:abc now''"
    unfolding scan_None_iff [symmetric]
    by (simp add: url_pattern_def match_here_def)
  have c: "captures uri_pattern ''see spotify:playlist:abc now'' ''abc''"
    unfolding scan_Some_iff [symmetric]
    by (simp add: uri_pattern_def match_here_def alnum_def)
  have d: "''37i9dQZF1DXcBWIGoYBM5M'' \<noteq> []"
    by simp
  have e: "list_all alnum ''37i9dQZF1DXcBWIGoYBM5M''"
    by (simp add: alnum_def)
  note t = extract_playlist_id_of_form
             [of "''https://open.spotify.com/playlist/PL123?si=9''" "''PL123''"
                 "''see spotify:playlist:abc now''" "''abc''" "''37i9dQZF1DXcBWIGoYBM5M''"]
  have f: "extract_playlist_id (PStr ''https://open.spotify.com/playlist/PL123?si=9'')
             = Inr ''PL123''"
    using t a by (elim conjE) (erule mp)
  have g: "extract_playlist_id (PStr ''see spotify:playlist:abc now'') = Inr ''abc''"
    using t b c by (elim conjE) (erule mp, rule conjI)
  have h: "extract_playlist_id (PStr (url_pattern @ ''37i9dQZF1DXcBWIGoYBM5M''))
             = Inr ''37i9dQZF1DXcBWIGoYBM5M'' \<and>
           extract_playlist_id (PStr (uri_pattern @ ''37i9dQZF1DXcBWIGoYBM5M''))
             = Inr ''37i9dQZF1DXcBWIGoYBM5M''"
    using t d e by (elim conjE) (erule mp, rule conjI)
  show ?thesis
    by (intro conjI a b c d e f g conjunct1 [OF h] conjunct2 [OF h])
qed

text \<open>
  C3. An input in which neither pattern matches anywhere is returned unchanged.
\<close>

theorem extract_playlist_id_no_match:
  assumes "\<not> has_match url_pattern s" and "\<not> has_match uri_pattern s"
  shows "extract_playlist_id (PStr s) = Inr s"
  using assms by (simp add: scan_None_iff [symmetric])

theorem extract_playlist_id_no_match_witness:
  "\<not> has_match url_pattern ''37i9dQZF1DXcBWIGoYBM5M'' \<and>
   \<not> has_match uri_pattern ''37i9dQZF1DXcBWIGoYBM5M'' \<and>
   extract_playlist_id (PStr ''37i9dQZF1DXcBWIGoYBM5M'') = Inr ''37i9dQZF1DXcBWIGoYBM5M''"
proof -
  have a: "\<not> has_match url_pattern ''37i9dQZF1DXcBWIGoYBM5M''"
    unfolding scan_None_iff [symmetric]
    by (simp add: url_pattern_def match_here_def)
  have b: "\<not> has_match uri_pattern ''37i9dQZF1DXcBWIGoYBM5M''"
    unfolding scan_None_iff [symmetric]
    by (simp add: uri_pattern_def match_here_def)
  show ?thesis
    using a b extract_playlist_id_no_match [OF a b] by simp
qed

text \<open>
  C4. The web-URL pattern is tried first: when both patterns match in the input, the
  result is the identifier that the web-URL pattern captures, whatever the URI pattern
  captures.
\<close>

theorem extract_playlist_id_url_first:
  assumes "captures url_pattern s url_group" and "captures uri_pattern s uri_group"
  shows "extract_playlist_id (PStr s) = Inr url_group"
  using assms by (simp add: captures_scan)

theorem extract_playlist_id_url_first_witness:
  "captures url_pattern ''spotify:playlist:abc https://open.spotify.com/playlist/xyz'' ''xyz'' \<and>
   captures uri_pattern ''spotify:playlist:abc https://open.spotify.com/playlist/xyz'' ''abc'' \<and>
   extract_playlist_id (PStr ''spotify:playlist:abc https://open.spotify.com/playlist/xyz'')
     = Inr ''xyz''"
proof -
  have a: "captures url_pattern
             ''spotify:playlist:abc https://open.spotify.com/playlist/xyz'' ''xyz''"
    unfolding scan_Some_iff [symmetric]
    by (simp add: url_pattern_def match_here_def alnum_def)
  have b: "captures uri_pattern
             ''spotify:playlist:abc https://open.spotify.com/playlist/xyz'' ''abc''"
    unfolding scan_Some_iff [symmetric]
    by (simp add: uri_pattern_def match_here_def alnum_def)
  show ?thesis
    using a b extract_playlist_id_url_first [OF a b] by simp
qed

section \<open>The extraction run: it returns, and returns one outcome\<close>

lemma re_search_past_end: "re_search lit s pos r \<Longrightarrow> length s < pos \<Longrightarrow> r = None"
  by (erule re_search.cases) auto

lemma re_search_finds_scan: "pos \<le> length s \<Longrightarrow> re_search lit s pos (scan lit (drop pos s))"
proof (induction "length s - pos" arbitrary: pos)
  case 0
  then have d: "drop pos s = []"
    by simp
  have le: "pos \<le> length s"
    using 0 by simp
  show ?case
  proof (cases "match_here lit []")
    case None
    have m: "match_here lit (drop pos s) = None"
      using None d by simp
    have "length s < Suc pos"
      using 0 by simp
    then have "re_search lit s (Suc pos) None"
      by (rule re_search.past_end)
    with le m have "re_search lit s pos None"
      by (rule re_search.advance)
    then show ?thesis
      using None d by simp
  next
    case (Some g)
    then have m: "match_here lit (drop pos s) = Some g"
      using d by simp
    from le m have "re_search lit s pos (Some g)"
      by (rule re_search.found)
    then show ?thesis
      using Some d by simp
  qed
next
  case (Suc n)
  then have lt: "pos < length s"
    by simp
  then have le: "pos \<le> length s"
    by simp
  have d: "drop pos s = s ! pos # drop (Suc pos) s"
    using lt by (simp add: Cons_nth_drop_Suc)
  show ?case
  proof (cases "match_here lit (drop pos s)")
    case None
    have "n = length s - Suc pos"
      using Suc.hyps(2) by simp
    moreover have "Suc pos \<le> length s"
      using lt by simp
    ultimately have "re_search lit s (Suc pos) (scan lit (drop (Suc pos) s))"
      by (rule Suc.hyps(1))
    with le None have "re_search lit s pos (scan lit (drop (Suc pos) s))"
      by (rule re_search.advance)
    then show ?thesis
      using None d by simp
  next
    case (Some g)
    with le have "re_search lit s pos (Some g)"
      by (rule re_search.found)
    then show ?thesis
      using Some scan_head by simp
  qed
qed

lemma re_search_only_scan:
  "re_search lit s pos r \<Longrightarrow> pos \<le> length s \<Longrightarrow> r = scan lit (drop pos s)"
proof (induction rule: re_search.induct)
  case (past_end s pos lit)
  then show ?case
    by simp
next
  case (found pos s lit g)
  then show ?case
    by (simp add: scan_head)
next
  case (advance pos s lit r)
  show ?case
  proof (cases "pos < length s")
    case True
    then have "drop pos s = s ! pos # drop (Suc pos) s"
      by (simp add: Cons_nth_drop_Suc)
    then show ?thesis
      using advance True by simp
  next
    case False
    then have "r = None"
      using advance re_search_past_end [of lit s "Suc pos" r] by simp
    then show ?thesis
      using advance False by simp
  qed
qed

lemma re_search_iff: "re_search lit s 0 r \<longleftrightarrow> scan lit s = r"
  using re_search_finds_scan [of 0 s lit] re_search_only_scan [of lit s 0 r] by auto

lemma extract_playlist_id_run_iff:
  "extract_playlist_id_run v outcome \<longleftrightarrow> outcome = extract_playlist_id v"
proof
  assume "extract_playlist_id_run v outcome"
  then show "outcome = extract_playlist_id v"
  proof (cases rule: extract_playlist_id_run.cases)
    case not_str
    then show ?thesis
      by (cases v) simp_all
  qed (simp_all add: re_search_iff)
next
  assume o: "outcome = extract_playlist_id v"
  show "extract_playlist_id_run v outcome"
  proof (cases v)
    case (PStr s)
    show ?thesis
    proof (cases "scan url_pattern s")
      case (Some g)
      then show ?thesis
        using o PStr by (simp add: extract_playlist_id_run.url_match re_search_iff)
    next
      case None
      then show ?thesis
        using o PStr
        by (cases "scan uri_pattern s")
           (simp_all add: extract_playlist_id_run.uri_match extract_playlist_id_run.no_match
                          re_search_iff)
    qed
  qed (simp_all add: o extract_playlist_id_run.not_str)
qed

text \<open>
  C7. For every input string the run of the extraction ends and ends in a string: the
  position loop of each search stops at the latest when the position passes the end of
  the input, and no step raises. Every run on that input ends in that same string, so
  equal inputs give equal outputs. The run relates the argument to the outcome and
  nothing else: the function reads and writes no state. The string is the value of the
  function \<open>extract_playlist_id\<close> above.
\<close>

theorem extract_playlist_id_total:
  "\<exists>r. extract_playlist_id_run (PStr s) (Inr r) \<and>
       (\<forall>outcome. extract_playlist_id_run (PStr s) outcome \<longrightarrow> outcome = Inr r) \<and>
       extract_playlist_id (PStr s) = Inr r"
proof -
  obtain r where r: "extract_playlist_id (PStr s) = Inr r"
    by simp
  have "extract_playlist_id_run (PStr s) (Inr r)"
    unfolding extract_playlist_id_run_iff using r by (rule sym)
  moreover have "\<forall>outcome. extract_playlist_id_run (PStr s) outcome \<longrightarrow> outcome = Inr r"
    unfolding extract_playlist_id_run_iff using r by (simp del: extract_playlist_id.simps)
  ultimately show ?thesis
    using r by blast
qed

theorem extract_playlist_id_total_witness:
  "extract_playlist_id_run (PStr ''see spotify:playlist:abc'') (Inr ''abc'') \<and>
   \<not> extract_playlist_id_run (PStr ''see spotify:playlist:abc'') (Inr ''see spotify:playlist:abc'') \<and>
   \<not> extract_playlist_id_run (PStr ''see spotify:playlist:abc'') (Inl TypeError)"
proof -
  have e: "extract_playlist_id (PStr ''see spotify:playlist:abc'') = Inr ''abc''"
    by (simp add: url_pattern_def uri_pattern_def match_here_def alnum_def)
  from extract_playlist_id_total [of "''see spotify:playlist:abc''"] obtain r
    where r: "extract_playlist_id_run (PStr ''see spotify:playlist:abc'') (Inr r)"
      and u: "\<forall>outcome. extract_playlist_id_run (PStr ''see spotify:playlist:abc'') outcome
                \<longrightarrow> outcome = Inr r"
      and v: "extract_playlist_id (PStr ''see spotify:playlist:abc'') = Inr r"
    by blast
  from e v have eq: "r = ''abc''"
    by simp
  note r' = r [unfolded eq] and u' = u [unfolded eq]
  have n1: "\<not> extract_playlist_id_run (PStr ''see spotify:playlist:abc'')
               (Inr ''see spotify:playlist:abc'')"
  proof
    assume "extract_playlist_id_run (PStr ''see spotify:playlist:abc'')
              (Inr ''see spotify:playlist:abc'')"
    with u' have "(Inr ''see spotify:playlist:abc'' :: exn + string) = Inr ''abc''"
      by blast
    then show False
      by simp
  qed
  have n2: "\<not> extract_playlist_id_run (PStr ''see spotify:playlist:abc'') (Inl TypeError)"
  proof
    assume "extract_playlist_id_run (PStr ''see spotify:playlist:abc'') (Inl TypeError)"
    with u' have "(Inl TypeError :: exn + string) = Inr ''abc''"
      by blast
    then show False
      by simp
  qed
  show ?thesis
    using r' n1 n2 by (intro conjI)
qed

section \<open>Start-up and the OAuth callback\<close>

text \<open>
  C8. When the client identifier or the client secret is absent from the environment,
  importing the module raises ValueError: no configuration and no application come to
  exist, so no request is served.
\<close>

theorem module_init_fails_fast:
  assumes "environ ''SPOTIFY_CLIENT_ID'' = None \<or> environ ''SPOTIFY_CLIENT_SECRET'' = None"
  shows "module_init environ =
           Inl (ValueError ''Client ID or Client Secret not found in environment variables.'')"
  using assms by (auto simp: module_init_def split: option.splits)

theorem module_init_fails_fast_witness:
  "(environ_without_secret ''SPOTIFY_CLIENT_ID'' = None \<or>
    environ_without_secret ''SPOTIFY_CLIENT_SECRET'' = None) \<and>
   module_init environ_without_secret =
     Inl (ValueError ''Client ID or Client Secret not found in environment variables.'')"
proof -
  have a: "environ_without_secret ''SPOTIFY_CLIENT_ID'' = None \<or>
           environ_without_secret ''SPOTIFY_CLIENT_SECRET'' = None"
    by (simp add: environ_without_secret_def)
  show ?thesis
    using a module_init_fails_fast [OF a] by blast
qed

text \<open>
  C6. When the token endpoint answers with a status other than 200, the callback renders
  the error page; its message ends with the body of the response, unchanged. The view is
  a rendered page, not a redirect.
\<close>

theorem callback_token_failure:
  assumes "args ''error'' = None" and "args ''code'' = Some code"
    and "http_post net TOKEN_URL (token_payload cfg code) = Inr response"
    and "status_code response \<noteq> 200"
  shows "callback cfg net args =
           (Inr (Render ''callback.html''
                   [(''error'', ''Failed to retrieve access token: '' @ body_text response)]),
            [Post TOKEN_URL (token_payload cfg code)])"
  using assms by (simp add: callback_def Let_def)

theorem callback_token_failure_witness:
  "code_args ''error'' = None \<and> code_args ''code'' = Some ''xyz'' \<and>
   http_post (fixed_remote (reply 400 ''invalid_grant'' None) (reply 200 [] None) (reply 200 [] None))
     TOKEN_URL (token_payload sample_config ''xyz'') = Inr (reply 400 ''invalid_grant'' None) \<and>
   status_code (reply 400 ''invalid_grant'' None) \<noteq> 200 \<and>
   callback sample_config
     (fixed_remote (reply 400 ''invalid_grant'' None) (reply 200 [] None) (reply 200 [] None))
     code_args =
     (Inr (Render ''callback.html''
             [(''error'', ''Failed to retrieve access token: invalid_grant'')]),
      [Post TOKEN_URL (token_payload sample_config ''xyz'')])"
proof -
  have a: "code_args ''error'' = None"
    by (simp add: code_args_def)
  have b: "code_args ''code'' = Some ''xyz''"
    by (simp add: code_args_def)
  have c: "http_post
             (fixed_remote (reply 400 ''invalid_grant'' None) (reply 200 [] None) (reply 200 [] None))
             TOKEN_URL (token_payload sample_config ''xyz'') = Inr (reply 400 ''invalid_grant'' None)"
    by (simp add: fixed_remote_def)
  have d: "status_code (reply 400 ''invalid_grant'' None) \<noteq> 200"
    by (simp add: reply_def)
  have e: "''Failed to retrieve access token: '' @ body_text (reply 400 ''invalid_grant'' None)
           = ''Failed to retrieve access token: invalid_grant''"
    by (simp add: reply_def)
  show ?thesis
    using a b c d callback_token_failure [OF a b c d] unfolding e by blast
qed

text \<open>
  C10. A callback request with neither an \<^verbatim>\<open>error\<close> nor a \<^verbatim>\<open>code\<close> parameter runs off
  the end of the function: the view is Python's \<open>None\<close>, neither a page nor a redirect,
  and no request is sent.
\<close>

theorem callback_falls_through:
  assumes "args ''error'' = None" and "args ''code'' = None"
  shows "callback cfg net args = (Inr ReturnNone, [])"
  using assms by (simp add: callback_def)

theorem callback_falls_through_witness:
  "state_args ''error'' = None \<and> state_args ''code'' = None \<and>
   callback sample_config
     (fixed_remote (reply 200 [] None) (reply 200 [] None) (reply 200 [] None))
     state_args = (Inr ReturnNone, [])"
proof -
  have a: "state_args ''error'' = None"
    by (simp add: state_args_def)
  have b: "state_args ''code'' = None"
    by (simp add: state_args_def)
  show ?thesis
    using a b callback_falls_through [OF a b] by blast
qed

section \<open>The filter loops on well-formed items\<close>

lemma artist_id_Some: "artist_id artist = Some ident \<longleftrightarrow> subscript artist ''id'' = Inr ident"
  by (simp add: artist_id_def split: sum.splits)

lemma artist_loop_entries:
  assumes "subscript item ''track'' = Inr t" and "subscript t ''uri'' = Inr u"
  shows "those (map artist_id artists) = Some ids \<Longrightarrow>
         artist_loop item artists acc =
           Inr (acc @ replicate (count_list ids (PStr kanye_id)) (PDict [(''uri'', u)]))"
proof (induction artists arbitrary: acc ids)
  case Nil
  then show ?case
    by simp
next
  case (Cons artist rest)
  from Cons.prems obtain ident ids'
    where a: "subscript artist ''id'' = Inr ident" and r: "those (map artist_id rest) = Some ids'"
      and ids: "ids = ident # ids'"
    by (auto simp: artist_id_Some split: option.splits)
  show ?case
    using a ids assms Cons.IH [OF r] by (simp add: replicate_app_Cons_same)
qed

lemma as_track_SomeD:
  assumes "as_track item = Some tr"
  shows "\<exists>t artists.
           subscript item ''track'' = Inr t \<and> subscript t ''uri'' = Inr (uri tr) \<and>
           subscript t ''artists'' = Inr (PList artists) \<and>
           those (map artist_id artists) = Some (artist_ids tr)"
  using assms
  by (auto simp: as_track_def split: sum.splits pyval.splits option.splits)

lemma track_step:
  assumes "as_track item = Some tr"
  shows "track_loop (item # rest) acc =
           track_loop rest (acc @ replicate (credits tr) (uri_entry tr))"
proof -
  from as_track_SomeD [OF assms] obtain t artists
    where t: "subscript item ''track'' = Inr t" and u: "subscript t ''uri'' = Inr (uri tr)"
      and a: "subscript t ''artists'' = Inr (PList artists)"
      and i: "those (map artist_id artists) = Some (artist_ids tr)"
    by blast
  show ?thesis
    using t a artist_loop_entries [OF t u i, of acc]
    by (simp add: credits_def uri_entry_def)
qed

lemma track_loop_entries:
  "map as_track items = map Some ts \<Longrightarrow>
   track_loop items acc = Inr (acc @ entries_per_credit ts)"
proof (induction items arbitrary: acc ts)
  case Nil
  then show ?case
    by (simp add: entries_per_credit_def)
next
  case (Cons item rest)
  then obtain tr ts' where ts: "ts = tr # ts'" and i: "as_track item = Some tr"
    and r: "map as_track rest = map Some ts'"
    by (cases ts) auto
  show ?case
    using track_step [OF i, of rest acc] Cons.IH [OF r] ts
    by (simp add: entries_per_credit_def)
qed

lemma filter_tracks_entries:
  assumes "json_body response = Some body" and "subscript body ''items'' = Inr (PList items)"
    and "map as_track items = map Some ts"
  shows "filter_tracks response = Inr (entries_per_credit ts)"
  using assms track_loop_entries [of items ts "[]"] by (simp add: filter_tracks_def)

lemma credits_0_iff: "credits t = 0 \<longleftrightarrow> \<not> credited t"
  by (simp add: credits_def credited_def count_list_0_iff)

lemma entries_Nil_iff: "entries_per_credit ts = [] \<longleftrightarrow> (\<forall>t\<in>set ts. \<not> credited t)"
  by (auto simp: entries_per_credit_def credits_0_iff)

lemma set_entries: "set (entries_per_credit ts) = uri_entry ` {t \<in> set ts. credited t}"
proof -
  have "set (replicate (credits t) (uri_entry t)) = (if credited t then {uri_entry t} else {})"
    for t
    using credits_0_iff [of t] by (cases "credits t") auto
  then show ?thesis
    by (auto simp: entries_per_credit_def split: if_splits)
qed

lemma entries_single_credit:
  "\<forall>t\<in>set ts. credits t \<le> 1 \<Longrightarrow> entries_per_credit ts = map uri_entry (filter credited ts)"
proof (induction ts)
  case Nil
  then show ?case
    by (simp add: entries_per_credit_def)
next
  case (Cons t ts)
  then have "credits t = 0 \<or> credits t = 1"
    by auto
  moreover have "entries_per_credit (t # ts) = replicate (credits t) (uri_entry t) @ entries_per_credit ts"
    by (simp add: entries_per_credit_def)
  ultimately show ?case
    using Cons credits_0_iff [of t] by auto
qed

section \<open>The requests the cleaner sends\<close>

lemma remove_marked_sent:
  "snd (remove_marked net url headers marked) =
     (if marked = [] then [] else [Delete url headers (PDict [(''tracks'', PList marked)])])"
  by (simp add: remove_marked_def Let_def split: sum.splits)

lemma remove_marked_none:
  "remove_marked net url headers [] =
     (Inr (Render ''remove_tracks.html'' [(''message'', ''No tracks to remove.'')]), [])"
  by (simp add: remove_marked_def)

lemma remove_marked_view:
  "fst (remove_marked net url headers marked) \<noteq>
     Inr (Render ''callback.html'' [(''error'', ''Invalid playlist URL or URI.'')])"
  by (simp add: remove_marked_def Let_def split: sum.splits)

lemma group_or_input_nonempty:
  assumes "s \<noteq> []"
  shows "(case scan url_pattern s of
            Some url_group \<Rightarrow> url_group
          | None \<Rightarrow> (case scan uri_pattern s of Some uri_group \<Rightarrow> uri_group | None \<Rightarrow> s)) \<noteq> []"
  using assms by (auto split: option.splits dest: scan_group)

lemma remove_artist_tracks_fetched:
  assumes "form ''access_token'' = Some access_token" and "access_token \<noteq> []"
    and "form ''playlist_input'' = Some playlist_input" and "playlist_input \<noteq> []"
    and "extract_playlist_id (PStr playlist_input) = Inr playlist_id"
    and "http_get net (tracks_url playlist_id) (auth_headers access_token) = Inr response"
    and "status_code response = 200"
    and "filter_tracks response = Inr marked"
  shows "remove_artist_tracks net form =
           (fst (remove_marked net (tracks_url playlist_id) (auth_headers access_token) marked),
            Get (tracks_url playlist_id) (auth_headers access_token) #
            snd (remove_marked net (tracks_url playlist_id) (auth_headers access_token) marked))"
proof -
  have "playlist_id \<noteq> []"
    using assms(4,5) group_or_input_nonempty [of playlist_input] by auto
  then show ?thesis
    using assms unfolding remove_artist_tracks_def
    by (simp add: Let_def case_prod_beta del: extract_playlist_id.simps)
qed

lemma remove_artist_tracks_sent:
  "snd (remove_artist_tracks net form) = [] \<or>
   (\<exists>url headers. snd (remove_artist_tracks net form) = [Get url headers]) \<or>
   (\<exists>url headers payload.
      snd (remove_artist_tracks net form) = [Get url headers, Delete url headers payload])"
  unfolding remove_artist_tracks_def
  by (simp add: missing_input_def Let_def case_prod_beta remove_marked_sent
           split: option.splits sum.splits del: extract_playlist_id.simps)

lemma at_most_one_delete:
  "length (filter is_delete (snd (remove_artist_tracks net form))) \<le> 1"
  using remove_artist_tracks_sent [of net form] by auto

subsection \<open>The sample data evaluated\<close>

lemma sample_form_token: "sample_form ''access_token'' = Some ''token''"
  by (simp add: sample_form_def)

lemma sample_form_input: "sample_form ''playlist_input'' = Some ''spotify:playlist:abc''"
  by (simp add: sample_form_def)

lemma sample_playlist_id: "extract_playlist_id (PStr ''spotify:playlist:abc'') = Inr ''abc''"
  by (simp add: url_pattern_def uri_pattern_def match_here_def alnum_def)

lemma playlist_remote_get:
  "http_get (playlist_remote items) url headers = Inr (playlist_reply items)"
  by (simp add: playlist_remote_def fixed_remote_def)

lemma playlist_reply_status: "status_code (playlist_reply items) = 200"
  by (simp add: playlist_reply_def reply_def)

lemma playlist_reply_json: "json_body (playlist_reply items) = Some (playlist_body items)"
  by (simp add: playlist_reply_def reply_def)

lemma playlist_body_items: "subscript (playlist_body items) ''items'' = Inr (PList items)"
  by (simp add: playlist_body_def)

lemma as_track_item_x: "as_track item_x = Some track_x"
  by (simp add: as_track_def item_x_def track_x_def sample_item_def artist_id_def)

lemma as_track_item_y: "as_track item_y = Some track_y"
  by (simp add: as_track_def item_y_def track_y_def sample_item_def artist_id_def)

lemma as_track_item_z: "as_track item_z = Some track_z"
  by (simp add: as_track_def item_z_def track_z_def sample_item_def artist_id_def)

lemma credits_track_x: "credits track_x = 2"
  by (simp add: credits_def track_x_def)

lemma credits_track_y: "credits track_y = 0"
  by (simp add: credits_def track_y_def kanye_id_def)

lemma credits_track_z: "credits track_z = 1"
  by (simp add: credits_def track_z_def kanye_id_def)

lemma sample_fetched:
  assumes "map as_track items = map Some ts"
  shows "remove_artist_tracks (playlist_remote items) sample_form =
           (fst (remove_marked (playlist_remote items) (tracks_url ''abc'') (auth_headers ''token'')
                   (entries_per_credit ts)),
            Get (tracks_url ''abc'') (auth_headers ''token'') #
            snd (remove_marked (playlist_remote items) (tracks_url ''abc'') (auth_headers ''token'')
                   (entries_per_credit ts)))"
proof (rule remove_artist_tracks_fetched)
  show "sample_form ''access_token'' = Some ''token''"
    by (rule sample_form_token)
  show "sample_form ''playlist_input'' = Some ''spotify:playlist:abc''"
    by (rule sample_form_input)
  show "extract_playlist_id (PStr ''spotify:playlist:abc'') = Inr ''abc''"
    by (rule sample_playlist_id)
  show "http_get (playlist_remote items) (tracks_url ''abc'') (auth_headers ''token'')
          = Inr (playlist_reply items)"
    by (rule playlist_remote_get)
  show "status_code (playlist_reply items) = 200"
    by (rule playlist_reply_status)
  show "filter_tracks (playlist_reply items) = Inr (entries_per_credit ts)"
    using playlist_reply_json playlist_body_items assms by (rule filter_tracks_entries)
qed simp_all

section \<open>Properties of the playlist cleaner\<close>

text \<open>
  C9. On a non-empty string the extraction returns a non-empty string: a captured group
  has at least one character, and otherwise the input itself comes back. So the handler
  never returns the page of the branch \<^verbatim>\<open>if not playlist_id\<close> (lines 80-81), whatever
  the form and the remote service are; no other branch renders that message.
\<close>

theorem invalid_playlist_branch_unreachable:
  "(s \<noteq> [] \<longrightarrow> (\<exists>r. extract_playlist_id (PStr s) = Inr r \<and> r \<noteq> [])) \<and>
   fst (remove_artist_tracks net form) \<noteq>
     Inr (Render ''callback.html'' [(''error'', ''Invalid playlist URL or URI.'')])"
proof
  show "s \<noteq> [] \<longrightarrow> (\<exists>r. extract_playlist_id (PStr s) = Inr r \<and> r \<noteq> [])"
    using group_or_input_nonempty [of s] by simp
  show "fst (remove_artist_tracks net form) \<noteq>
          Inr (Render ''callback.html'' [(''error'', ''Invalid playlist URL or URI.'')])"
    unfolding remove_artist_tracks_def
    by (simp add: missing_input_def Let_def case_prod_beta remove_marked_view
                  group_or_input_nonempty
             split: option.splits sum.splits)
qed

theorem invalid_playlist_branch_unreachable_witness:
  "''abc'' \<noteq> [] \<and> (\<exists>r. extract_playlist_id (PStr ''abc'') = Inr r \<and> r \<noteq> []) \<and>
   fst (remove_artist_tracks (playlist_remote [item_y]) sample_form) \<noteq>
     Inr (Render ''callback.html'' [(''error'', ''Invalid playlist URL or URI.'')])"
proof -
  have a: "''abc'' \<noteq> []"
    by simp
  show ?thesis
    using a invalid_playlist_branch_unreachable [of "''abc''" "playlist_remote [item_y]" sample_form]
    by blast
qed

text \<open>
  C5, as the code has it. The claim gives the message as "No tracks to remove!"; the
  handler renders "No tracks to remove." The sample response has one track, credited to
  another artist only.
\<close>

theorem no_tracks_message_counterexample:
  "map as_track [item_y] = [Some track_y] \<and> \<not> credited track_y \<and>
   fst (remove_artist_tracks (playlist_remote [item_y]) sample_form) =
     Inr (Render ''remove_tracks.html'' [(''message'', ''No tracks to remove.'')]) \<and>
   fst (remove_artist_tracks (playlist_remote [item_y]) sample_form) \<noteq>
     Inr (Render ''remove_tracks.html'' [(''message'', ''No tracks to remove!'')])"
proof -
  have a: "map as_track [item_y] = map Some [track_y]"
    by (simp add: as_track_item_y)
  have b: "\<not> credited track_y"
    using credits_track_y by (simp add: credits_0_iff)
  have "entries_per_credit [track_y] = []"
    using b by (simp add: entries_Nil_iff)
  then have "fst (remove_artist_tracks (playlist_remote [item_y]) sample_form) =
               Inr (Render ''remove_tracks.html'' [(''message'', ''No tracks to remove.'')])"
    using sample_fetched [OF a] by (simp add: remove_marked_none)
  then show ?thesis
    using a b by simp
qed

text \<open>
  C5, amended. When the form carries a token and a playlist reference, the fetch answers
  with status 200, and the body holds a list of well-formed track items none of which is
  credited to the target artist, the handler sends the fetch and nothing else, no delete,
  and renders the success page with the message "No tracks to remove."
\<close>

theorem remove_artist_tracks_nothing_to_remove:
  assumes "form ''access_token'' = Some access_token" and "access_token \<noteq> []"
    and "form ''playlist_input'' = Some playlist_input" and "playlist_input \<noteq> []"
    and "extract_playlist_id (PStr playlist_input) = Inr playlist_id"
    and "http_get net (tracks_url playlist_id) (auth_headers access_token) = Inr response"
    and "status_code response = 200"
    and "json_body response = Some body"
    and "subscript body ''items'' = Inr (PList items)"
    and "map as_track items = map Some ts"
    and "\<forall>t\<in>set ts. \<not> credited t"
  shows "remove_artist_tracks net form =
           (Inr (Render ''remove_tracks.html'' [(''message'', ''No tracks to remove.'')]),
            [Get (tracks_url playlist_id) (auth_headers access_token)])"
proof -
  have "filter_tracks response = Inr []"
    using filter_tracks_entries [OF assms(8,9,10)] assms(11) entries_Nil_iff [of ts] by simp
  from remove_artist_tracks_fetched [OF assms(1-7) this] show ?thesis
    by (simp add: remove_marked_none)
qed

theorem remove_artist_tracks_nothing_to_remove_witness:
  "sample_form ''access_token'' = Some ''token'' \<and> ''token'' \<noteq> [] \<and>
   sample_form ''playlist_input'' = Some ''spotify:playlist:abc'' \<and>
   ''spotify:playlist:abc'' \<noteq> [] \<and>
   extract_playlist_id (PStr ''spotify:playlist:abc'') = Inr ''abc'' \<and>
   http_get (playlist_remote [item_y, item_y]) (tracks_url ''abc'') (auth_headers ''token'')
     = Inr (playlist_reply [item_y, item_y]) \<and>
   status_code (playlist_reply [item_y, item_y]) = 200 \<and>
   json_body (playlist_reply [item_y, item_y]) = Some (playlist_body [item_y, item_y]) \<and>
   subscript (playlist_body [item_y, item_y]) ''items'' = Inr (PList [item_y, item_y]) \<and>
   map as_track [item_y, item_y] = map Some [track_y, track_y] \<and>
   \<not> credited track_y \<and>
   remove_artist_tracks (playlist_remote [item_y, item_y]) sample_form =
     (Inr (Render ''remove_tracks.html'' [(''message'', ''No tracks to remove.'')]),
      [Get (tracks_url ''abc'') (auth_headers ''token'')])"
proof -
  have h2: "''token'' \<noteq> []"
    by simp
  have h4: "''spotify:playlist:abc'' \<noteq> []"
    by simp
  have h10: "map as_track [item_y, item_y] = map Some [track_y, track_y]"
    by (simp add: as_track_item_y)
  have c: "\<not> credited track_y"
    using credits_track_y by (simp add: credits_0_iff)
  then have h11: "\<forall>t\<in>set [track_y, track_y]. \<not> credited t"
    by simp
  show ?thesis
    using remove_artist_tracks_nothing_to_remove
            [OF sample_form_token h2 sample_form_input h4 sample_playlist_id
                playlist_remote_get playlist_reply_status playlist_reply_json
                playlist_body_items h10 h11]
          sample_form_token h2 sample_form_input h4 sample_playlist_id
          playlist_remote_get playlist_reply_status playlist_reply_json
          playlist_body_items h10 c
    by blast
qed

text \<open>
  C1, as the code has it. The sample response has one track, on which the target artist
  is credited twice: the delete payload lists the URI of that track twice.
\<close>

theorem duplicate_uri_counterexample:
  "map as_track [item_x] = [Some track_x] \<and> credited track_x \<and>
   snd (remove_artist_tracks (playlist_remote [item_x]) sample_form) =
     [Get (tracks_url ''abc'') (auth_headers ''token''),
      Delete (tracks_url ''abc'') (auth_headers ''token'')
        (PDict [(''tracks'',
                 PList [PDict [(''uri'', PStr ''spotify:track:x'')],
                        PDict [(''uri'', PStr ''spotify:track:x'')]])])] \<and>
   \<not> distinct [PDict [(''uri'', PStr ''spotify:track:x'')],
               PDict [(''uri'', PStr ''spotify:track:x'')]]"
proof -
  have a: "map as_track [item_x] = map Some [track_x]"
    by (simp add: as_track_item_x)
  have b: "credited track_x"
    using credits_track_x credits_0_iff [of track_x] by simp
  have e: "entries_per_credit [track_x] =
             [PDict [(''uri'', PStr ''spotify:track:x'')],
              PDict [(''uri'', PStr ''spotify:track:x'')]]"
  proof -
    have "entries_per_credit [track_x] = replicate 2 (uri_entry track_x)"
      by (simp add: entries_per_credit_def credits_track_x)
    then show ?thesis
      by (simp add: uri_entry_def track_x_def numeral_2_eq_2)
  qed
  show ?thesis
    using a b sample_fetched [OF a] by (simp add: remove_marked_sent e)
qed

text \<open>
  C1, amended. Whatever the form and the remote service are, the handler sends at most
  one delete. When the fetch answers with status 200 and a list of well-formed track
  items, the requests are the fetch and, unless no track is credited to the target
  artist, one delete whose payload lists the tracks in response order, each once per
  credit of the target artist on it: no entry is dropped as a duplicate. The entries are
  the URIs of the credited tracks and no others, and there is exactly one entry per
  credited track when no track credits the target artist more than once.
\<close>

theorem remove_artist_tracks_delete_payload:
  "length (filter is_delete (snd (remove_artist_tracks net form))) \<le> 1 \<and>
   (form ''access_token'' = Some access_token \<and> access_token \<noteq> [] \<and>
    form ''playlist_input'' = Some playlist_input \<and> playlist_input \<noteq> [] \<and>
    extract_playlist_id (PStr playlist_input) = Inr playlist_id \<and>
    http_get net (tracks_url playlist_id) (auth_headers access_token) = Inr response \<and>
    status_code response = 200 \<and>
    json_body response = Some body \<and>
    subscript body ''items'' = Inr (PList items) \<and>
    map as_track items = map Some ts
    \<longrightarrow>
    snd (remove_artist_tracks net form) =
      Get (tracks_url playlist_id) (auth_headers access_token) #
      (if entries_per_credit ts = [] then []
       else [Delete (tracks_url playlist_id) (auth_headers access_token)
               (PDict [(''tracks'', PList (entries_per_credit ts))])]) \<and>
    set (entries_per_credit ts) = uri_entry ` {t \<in> set ts. credited t} \<and>
    ((\<forall>t\<in>set ts. credits t \<le> 1) \<longrightarrow>
       entries_per_credit ts = map uri_entry (filter credited ts)))"
proof (intro conjI impI)
  show "length (filter is_delete (snd (remove_artist_tracks net form))) \<le> 1"
    by (rule at_most_one_delete)
next
  assume h: "form ''access_token'' = Some access_token \<and> access_token \<noteq> [] \<and>
    form ''playlist_input'' = Some playlist_input \<and> playlist_input \<noteq> [] \<and>
    extract_playlist_id (PStr playlist_input) = Inr playlist_id \<and>
    http_get net (tracks_url playlist_id) (auth_headers access_token) = Inr response \<and>
    status_code response = 200 \<and>
    json_body response = Some body \<and>
    subscript body ''items'' = Inr (PList items) \<and>
    map as_track items = map Some ts"
  then have f: "filter_tracks response = Inr (entries_per_credit ts)"
    using filter_tracks_entries by blast
  have "remove_artist_tracks net form =
          (fst (remove_marked net (tracks_url playlist_id) (auth_headers access_token)
                  (entries_per_credit ts)),
           Get (tracks_url playlist_id) (auth_headers access_token) #
           snd (remove_marked net (tracks_url playlist_id) (auth_headers access_token)
                  (entries_per_credit ts)))"
    using h f remove_artist_tracks_fetched by blast
  then show "snd (remove_artist_tracks net form) =
      Get (tracks_url playlist_id) (auth_headers access_token) #
      (if entries_per_credit ts = [] then []
       else [Delete (tracks_url playlist_id) (auth_headers access_token)
               (PDict [(''tracks'', PList (entries_per_credit ts))])])"
    by (simp add: remove_marked_sent)
next
  show "set (entries_per_credit ts) = uri_entry ` {t \<in> set ts. credited t}"
    by (rule set_entries)
next
  assume "\<forall>t\<in>set ts. credits t \<le> 1"
  then show "entries_per_credit ts = map uri_entry (filter credited ts)"
    by (rule entries_single_credit)
qed

theorem remove_artist_tracks_delete_payload_witness:
  "sample_form ''access_token'' = Some ''token'' \<and> ''token'' \<noteq> [] \<and>
   sample_form ''playlist_input'' = Some ''spotify:playlist:abc'' \<and>
   ''spotify:playlist:abc'' \<noteq> [] \<and>
   extract_playlist_id (PStr ''spotify:playlist:abc'') = Inr ''abc'' \<and>
   http_get (playlist_remote [item_x, item_y, item_z]) (tracks_url ''abc'') (auth_headers ''token'')
     = Inr (playlist_reply [item_x, item_y, item_z]) \<and>
   status_code (playlist_reply [item_x, item_y, item_z]) = 200 \<and>
   json_body (playlist_reply [item_x, item_y, item_z])
     = Some (playlist_body [item_x, item_y, item_z]) \<and>
   subscript (playlist_body [item_x, item_y, item_z]) ''items''
     = Inr (PList [item_x, item_y, item_z]) \<and>
   map as_track [item_x, item_y, item_z] = map Some [track_x, track_y, track_z] \<and>
   length (filter is_delete
             (snd (remove_artist_tracks (playlist_remote [item_x, item_y, item_z]) sample_form)))
     \<le> 1 \<and>
   snd (remove_artist_tracks (playlist_remote [item_x, item_y, item_z]) sample_form) =
     [Get (tracks_url ''abc'') (auth_headers ''token''),
      Delete (tracks_url ''abc'') (auth_headers ''token'')
        (PDict [(''tracks'',
                 PList [PDict [(''uri'', PStr ''spotify:track:x'')],
                        PDict [(''uri'', PStr ''spotify:track:x'')],
                        PDict [(''uri'', PStr ''spotify:track:z'')]])])]"
proof -
  have h2: "''token'' \<noteq> []"
    by simp
  have h4: "''spotify:playlist:abc'' \<noteq> []"
    by simp
  have h10: "map as_track [item_x, item_y, item_z] = map Some [track_x, track_y, track_z]"
    by (simp add: as_track_item_x as_track_item_y as_track_item_z)
  have "entries_per_credit [track_x, track_y, track_z] =
          replicate 2 (uri_entry track_x) @ replicate 1 (uri_entry track_z)"
    by (simp add: entries_per_credit_def credits_track_x credits_track_y credits_track_z)
  then have e: "entries_per_credit [track_x, track_y, track_z] =
          [PDict [(''uri'', PStr ''spotify:track:x'')],
           PDict [(''uri'', PStr ''spotify:track:x'')],
           PDict [(''uri'', PStr ''spotify:track:z'')]]"
    by (simp add: uri_entry_def track_x_def track_z_def numeral_2_eq_2)
  have hyps: "sample_form ''access_token'' = Some ''token'' \<and> ''token'' \<noteq> [] \<and>
     sample_form ''playlist_input'' = Some ''spotify:playlist:abc'' \<and>
     ''spotify:playlist:abc'' \<noteq> [] \<and>
     extract_playlist_id (PStr ''spotify:playlist:abc'') = Inr ''abc'' \<and>
     http_get (playlist_remote [item_x, item_y, item_z]) (tracks_url ''abc'') (auth_headers ''token'')
       = Inr (playlist_reply [item_x, item_y, item_z]) \<and>
     status_code (playlist_reply [item_x, item_y, item_z]) = 200 \<and>
     json_body (playlist_reply [item_x, item_y, item_z])
       = Some (playlist_body [item_x, item_y, item_z]) \<and>
     subscript (playlist_body [item_x, item_y, item_z]) ''items''
       = Inr (PList [item_x, item_y, item_z]) \<and>
     map as_track [item_x, item_y, item_z] = map Some [track_x, track_y, track_z]"
    using sample_form_token h2 sample_form_input h4 sample_playlist_id
          playlist_remote_get playlist_reply_status playlist_reply_json
          playlist_body_items h10
    by blast
  have t: "length (filter is_delete
             (snd (remove_artist_tracks (playlist_remote [item_x, item_y, item_z]) sample_form)))
           \<le> 1 \<and>
        snd (remove_artist_tracks (playlist_remote [item_x, item_y, item_z]) sample_form) =
          Get (tracks_url ''abc'') (auth_headers ''token'') #
          (if entries_per_credit [track_x, track_y, track_z] = [] then []
           else [Delete (tracks_url ''abc'') (auth_headers ''token'')
                   (PDict [(''tracks'', PList (entries_per_credit [track_x, track_y, track_z]))])])"
    using hyps
          remove_artist_tracks_delete_payload
            [of "playlist_remote [item_x, item_y, item_z]" sample_form "''token''"
                "''spotify:playlist:abc''" "''abc''" "playlist_reply [item_x, item_y, item_z]"
                "playlist_body [item_x, item_y, item_z]" "[item_x, item_y, item_z]"
                "[track_x, track_y, track_z]"]
    by blast
  show ?thesis
    using hyps t unfolding e by simp
qed

end
